theory Spec2Isabelle
  imports Main "HOL-Library.Char_ord" "HOL-Library.List_Lexorder" "HOL-Library.Multiset"
begin

section \<open>Python values seen by sqlWrapper.py\<close>

text \<open>
  A byte string is a list of 8-bit characters. A numpy array is carried by what
  \<open>np.save\<close> writes of it: the dtype descriptor, the order flag, the shape and the
  raw element bytes.
\<close>

type_synonym bytes = "char list"

record ndarray =
  descr :: string
  fortran_order :: bool
  shape :: "nat list"
  data :: bytes

text \<open>
  The runtime classes \<open>detectType\<close> tests for. \<open>ndarray_ext\<close> (lines 104-107) is
  declared \<open>class ndarray_ext:\<close> with no base class, so it is a class of its own and
  not a subclass of \<open>np.ndarray\<close>.
\<close>

datatype pytype =
    T_bool | T_int
  | T_np_int8 | T_np_int16 | T_np_int32 | T_np_int64
  | T_str
  | T_float | T_np_float16 | T_np_float32 | T_np_float64
  | T_ndarray | T_ndarray_ext
  | T_function | T_list | T_tuple | T_NoneType
  | T_other string

text \<open>
  Floating point numbers are carried by their literal text: only their runtime class
  bears on what the module does with them. An object of any other class is
  \<open>PyObject cls c\<close>, with \<open>c\<close> telling whether it is callable.
\<close>

datatype pyval =
    PyBool bool
  | PyInt int
  | NpInt8 int | NpInt16 int | NpInt32 int | NpInt64 int
  | PyStr string
  | PyFloat string | NpFloat16 string | NpFloat32 string | NpFloat64 string
  | Ndarray ndarray
  | Ndarray_ext ndarray
  | PyFunction string
  | PyList "pyval list"
  | PyTuple "pyval list"
  | PyNone
  | PyObject string bool

fun type_of :: "pyval \<Rightarrow> pytype" where
  "type_of (PyBool _) = T_bool"
| "type_of (PyInt _) = T_int"
| "type_of (NpInt8 _) = T_np_int8"
| "type_of (NpInt16 _) = T_np_int16"
| "type_of (NpInt32 _) = T_np_int32"
| "type_of (NpInt64 _) = T_np_int64"
| "type_of (PyStr _) = T_str"
| "type_of (PyFloat _) = T_float"
| "type_of (NpFloat16 _) = T_np_float16"
| "type_of (NpFloat32 _) = T_np_float32"
| "type_of (NpFloat64 _) = T_np_float64"
| "type_of (Ndarray _) = T_ndarray"
| "type_of (Ndarray_ext _) = T_ndarray_ext"
| "type_of (PyFunction _) = T_function"
| "type_of (PyList _) = T_list"
| "type_of (PyTuple _) = T_tuple"
| "type_of PyNone = T_NoneType"
| "type_of (PyObject c _) = T_other c"

text \<open>
  The proper base classes among the modelled ones: \<open>bool\<close> derives from \<open>int\<close>
  (the reason for the comment on line 483) and \<open>np.float64\<close> from \<open>float\<close>.
\<close>

fun bases :: "pytype \<Rightarrow> pytype list" where
  "bases T_bool = [T_int]"
| "bases T_np_float64 = [T_float]"
| "bases _ = []"

definition isinstance :: "pyval \<Rightarrow> pytype list \<Rightarrow> bool" where
  "isinstance v cs = list_ex (\<lambda>c. c \<in> set cs) (type_of v # bases (type_of v))"

fun callable :: "pyval \<Rightarrow> bool" where
  "callable (PyFunction _) = True"
| "callable (PyObject _ c) = c"
| "callable _ = False"

fun items :: "pyval \<Rightarrow> pyval list" where
  "items (PyList xs) = xs"
| "items (PyTuple xs) = xs"
| "items _ = []"

definition len :: "pyval \<Rightarrow> nat" where
  "len v = length (items v)"

section \<open>Errors, printed messages and the session object\<close>

datatype error =
    TypeError pytype pyval
  | AttributeError string
  | NameError string
  | FileNotFoundError string
  | UnboundLocalError string
  | KeyError string
  | FormatError
  | UnsupportedDtypeError string
  | UnicodeDecodeError
  | BadGzipFile

text \<open>
  What the module prints. The text of a message is kept as the value it is formatted
  from.
\<close>

datatype message =
    Unknown_driver string
  | Internal_array_detected string
  | External_array_detected string
  | Single_element_warning pyval
  | Lock_timeout_warning
  | Query_text string

text \<open>
  The attributes of an \<open>iodb\<close> object. An attribute that \<open>__init__\<close> or
  \<open>start\<close> has not assigned is \<open>None\<close> here, and reading it raises
  \<open>AttributeError\<close>.
\<close>

record iodb =
  driver :: "string option"
  rowid :: "string option"
  arrayType :: "string option"
  arrayType_ext :: "string option"
  loadZipped :: bool
  storage :: string
  spath :: string
  counter :: "int option"
  folder :: "string option"
  fname :: "string option"

definition getattr :: "string \<Rightarrow> 'a option \<Rightarrow> error + 'a" where
  "getattr name field = (case field of None \<Rightarrow> Inl (AttributeError name) | Some v \<Rightarrow> Inr v)"

section \<open>The filesystem and the names \<open>os\<close> and \<open>socket\<close>\<close>

text \<open>
  A filesystem maps a path to a directory or to the bytes of a file.
\<close>

datatype node = Dir | File bytes

type_synonym filesystem = "string \<rightharpoonup> node"

text \<open>
  The module imports \<open>sqlite3\<close>, \<open>io\<close>, \<open>types\<close>, \<open>time\<close>, \<open>inspect\<close>, \<open>gzip\<close>,
  \<open>numpy\<close> and \<open>psycopg2\<close>. The imports of \<open>socket\<close> and \<open>os\<close> on lines 50-51
  are comments, so neither name is bound anywhere in the module. Evaluating
  \<open>os.path.exists\<close>, \<open>os.path.isfile\<close>, \<open>os.mknod\<close>, \<open>os.remove\<close>,
  \<open>os.makedirs\<close>, \<open>os.getpid\<close> or \<open>socket.gethostname\<close> raises \<open>NameError\<close> at the
  name, before the call is made and whatever its arguments are.
\<close>

definition os_path_exists :: "filesystem \<Rightarrow> string \<Rightarrow> error + bool" where
  "os_path_exists fs p = Inl (NameError ''os'')"

definition os_path_isfile :: "filesystem \<Rightarrow> string \<Rightarrow> error + bool" where
  "os_path_isfile fs p = Inl (NameError ''os'')"

definition os_mknod :: "filesystem \<Rightarrow> string \<Rightarrow> error + filesystem" where
  "os_mknod fs p = Inl (NameError ''os'')"

definition os_remove :: "filesystem \<Rightarrow> string \<Rightarrow> error + filesystem" where
  "os_remove fs p = Inl (NameError ''os'')"

definition os_makedirs :: "filesystem \<Rightarrow> string \<Rightarrow> error + filesystem" where
  "os_makedirs fs p = Inl (NameError ''os'')"

definition os_getpid :: "error + int" where
  "os_getpid = Inl (NameError ''os'')"

definition socket_gethostname :: "error + string" where
  "socket_gethostname = Inl (NameError ''socket'')"

section \<open>Session construction (\<open>iodb.__init__\<close>, lines 122-190)\<close>

text \<open>
  \<open>today\<close> is what \<open>time.strftime("%Y-%m-%d")\<close> returns. The result is the printed
  messages, the filesystem after the call and the new object, or the error that ends
  the constructor. For external and mixed storage line 189 evaluates
  \<open>os.path.exists\<close> first.
\<close>

definition iodb_init ::
  "string \<Rightarrow> string \<Rightarrow> string \<Rightarrow> bool \<Rightarrow> bool \<Rightarrow> string \<Rightarrow> filesystem
     \<Rightarrow> message list \<times> filesystem \<times> (error + iodb)" where
  "iodb_init drv stor storagePath loadZ readOnly today fs =
    (let self0 = \<lparr> driver = None, rowid = None, arrayType = None, arrayType_ext = None,
                    loadZipped = False, storage = [], spath = [], counter = None,
                    folder = None, fname = None \<rparr>;
         (out, self1) =
           (if drv \<in> set [''sqlite'', ''postgre''] then
              (if drv = ''sqlite'' then
                 ([], self0\<lparr> driver := Some drv, rowid := Some ''rowid'',
                            arrayType := Some ''ARRAY'', arrayType_ext := Some ''ARRAY_EXT'' \<rparr>)
               else
                 ([], self0\<lparr> driver := Some drv, rowid := Some ''oid'',
                            arrayType := Some (if stor = ''intern'' then ''BYTEA'' else ''TEXT''),
                            arrayType_ext := Some ''TEXT'' \<rparr>))
            else ([Unknown_driver drv], self0));
         self2 = self1\<lparr> loadZipped := loadZ, storage := stor, spath := storagePath \<rparr>
     in if stor = ''extern'' \<or> stor = ''mixed'' then
          (let self3 = self2\<lparr> counter := Some 1, folder := Some (today @ ''/'') \<rparr>;
               fullpath = storagePath @ today @ ''/''
           in case os_path_exists fs fullpath of
                Inl e \<Rightarrow> (out, fs, Inl e)
              | Inr ex \<Rightarrow>
                  if \<not> ex \<and> \<not> readOnly then
                    (case os_makedirs fs fullpath of
                       Inl e \<Rightarrow> (out, fs, Inl e)
                     | Inr fs1 \<Rightarrow> (out, fs1, Inr self3))
                  else (out, fs, Inr self3))
        else (out, fs, Inr self2))"

section \<open>Type inference (\<open>iodb.detectType\<close>, lines 480-542)\<close>

text \<open>
  The branches are those of the source, in its order. A branch of the source that
  ends without a \<open>return\<close> (an unknown \<open>dbdriver\<close>) returns Python's \<open>None\<close>, which
  is \<open>Inr None\<close> here.
\<close>

lemma items_single_size:
  "len v = Suc 0 \<Longrightarrow> size (items v ! 0) < size v"
  by (cases v) (auto simp: len_def length_Suc_conv)

function detectType :: "iodb \<Rightarrow> pyval \<Rightarrow> string \<Rightarrow> message list \<times> (error + string option)" where
  "detectType self val dbdriver =
    (if isinstance val [T_bool] then
       (if dbdriver = ''sqlite'' then ([], Inr (Some ''INTEGER''))
        else if dbdriver = ''postgre'' then ([], Inr (Some ''BOOL''))
        else ([], Inr None))
     else if isinstance val [T_int, T_np_int32, T_np_int16] then ([], Inr (Some ''INTEGER''))
     else if isinstance val [T_np_int64] then
       (if dbdriver = ''sqlite'' then ([], Inr (Some ''INTEGER''))
        else if dbdriver = ''postgre'' then ([], Inr (Some ''BIGINT''))
        else ([], Inr None))
     else if isinstance val [T_np_int8] then
       (if dbdriver = ''sqlite'' then ([], Inr (Some ''INTEGER''))
        else if dbdriver = ''postgre'' then ([], Inr (Some ''SMALLINT''))
        else ([], Inr None))
     else if isinstance val [T_str] then
       (if val = PyStr ''ndarray'' then
          ([Internal_array_detected ''ndarray''], map_sum id Some (getattr ''_arrayType'' (arrayType self)))
        else if val = PyStr ''ndarray_ext'' then
          ([External_array_detected ''ndarray_ext''],
           map_sum id Some (getattr ''_arrayType_ext'' (arrayType_ext self)))
        else ([], Inr (Some ''TEXT'')))
     else if isinstance val [T_float, T_np_float64] then
       (if dbdriver = ''sqlite'' then ([], Inr (Some ''REAL''))
        else if dbdriver = ''postgre'' then ([], Inr (Some ''DOUBLE PRECISION''))
        else ([], Inr None))
     else if isinstance val [T_np_float16, T_np_float32] then ([], Inr (Some ''REAL''))
     else if isinstance val [T_ndarray] then
       (if type_of val = T_ndarray_ext then
          ([], map_sum id Some (getattr ''_arrayType_ext'' (arrayType_ext self)))
        else ([], map_sum id Some (getattr ''_arrayType'' (arrayType self))))
     else if callable val then ([], Inr (Some ''TEXT''))
     else if isinstance val [T_list] \<or> isinstance val [T_tuple] then
       (if len val = 1 then
          (case detectType self (items val ! 0) dbdriver of
             (out, r) \<Rightarrow> (Single_element_warning val # out, r))
        else ([], Inl (TypeError (type_of val) val)))
     else ([], Inl (TypeError (type_of val) val)))"
  by pat_completeness auto
termination
  by (relation "measure (\<lambda>(self, val, dbdriver). size val)") (auto simp: items_single_size)

declare detectType.simps [simp del]

section \<open>The advisory lock (\<open>iodb.start\<close>, \<open>iodb.lock\<close>, \<open>iodb.release\<close>)\<close>

text \<open>
  What a call does to the world, in the order it does it: the filesystem calls, the
  sleeps (with their length in milliseconds) and the printed lines.
\<close>

datatype event =
    Exists string | Isfile string | Mknod string | Remove string | Read_file string
  | Sleep int | Print message

text \<open>
  \<open>start\<close> (lines 328-351) records the database file name of a sqlite session; the
  connection itself belongs to the driver.
\<close>

definition start :: "iodb \<Rightarrow> string \<Rightarrow> error + iodb" where
  "start self filename =
     (case getattr ''driver'' (driver self) of
        Inl e \<Rightarrow> Inl e
      | Inr drv \<Rightarrow>
          if drv = ''sqlite'' then Inr (self\<lparr> fname := Some filename \<rparr>) else Inr self)"

text \<open>One pass through lines 434-438: the existence test and the creation of the marker.\<close>

definition lock_attempt ::
  "string \<Rightarrow> filesystem \<Rightarrow> error + (event list \<times> filesystem \<times> pyval)" where
  "lock_attempt lockfilename fs =
     (case os_path_exists fs lockfilename of
        Inl e \<Rightarrow> Inl e
      | Inr ex \<Rightarrow>
          if ex then Inr ([Exists lockfilename], fs, PyBool False)
          else
            (case os_mknod fs lockfilename of
               Inl e \<Rightarrow> Inl e
             | Inr fs1 \<Rightarrow>
                 Inr ([Exists lockfilename, Mknod lockfilename], fs1, PyStr lockfilename)))"

text \<open>
  The \<open>while(True)\<close> loop of lines 433-449. \<open>cnt\<close> is the source's \<open>counter\<close>,
  \<open>tr\<close> the events so far. An error raised in a pass ends the loop and the call.
\<close>

function lock_loop ::
  "string \<Rightarrow> int \<Rightarrow> int \<Rightarrow> int \<Rightarrow> event list \<Rightarrow> filesystem
     \<Rightarrow> event list \<times> filesystem \<times> (error + pyval)" where
  "lock_loop lockfilename repeat timeoutCounter cnt tr fs =
     (case lock_attempt lockfilename fs of
        Inl e \<Rightarrow> (tr, fs, Inl e)
      | Inr (ev, fs1, success) \<Rightarrow>
          if repeat > 0 then
            (if cnt > timeoutCounter
             then (tr @ ev @ [Print Lock_timeout_warning], fs1, Inr success)
             else lock_loop lockfilename repeat timeoutCounter (cnt + 1)
                    (tr @ ev @ [Sleep repeat]) fs1)
          else (tr @ ev, fs1, Inr success))"
  by pat_completeness auto
termination
  by (relation "measure (\<lambda>(f, r, t, c, tr, fs). nat (t + 1 - c))") auto

declare lock_loop.simps [simp del]

text \<open>
  \<open>lock\<close> (lines 417-451). For a driver other than sqlite the method returns
  \<open>None\<close>.
\<close>

definition lock ::
  "iodb \<Rightarrow> string \<Rightarrow> int \<Rightarrow> int \<Rightarrow> filesystem
     \<Rightarrow> event list \<times> filesystem \<times> (error + pyval)" where
  "lock self suffix repeat timeoutCounter fs =
     (case getattr ''driver'' (driver self) of
        Inl e \<Rightarrow> ([], fs, Inl e)
      | Inr drv \<Rightarrow>
          if drv = ''sqlite'' then
            (case getattr ''_fname'' (fname self) of
               Inl e \<Rightarrow> ([], fs, Inl e)
             | Inr fn \<Rightarrow> lock_loop (fn @ suffix) repeat timeoutCounter 0 [] fs)
          else ([], fs, Inr PyNone))"

text \<open>\<open>release\<close> (lines 453-472).\<close>

definition release ::
  "iodb \<Rightarrow> string option \<Rightarrow> string \<Rightarrow> filesystem
     \<Rightarrow> event list \<times> filesystem \<times> (error + pyval)" where
  "release self lockfilename suffix fs =
     (case getattr ''driver'' (driver self) of
        Inl e \<Rightarrow> ([], fs, Inl e)
      | Inr drv \<Rightarrow>
          if drv = ''sqlite'' then
            (case (case lockfilename of
                     None \<Rightarrow> map_sum id (\<lambda>fn. fn @ suffix) (getattr ''_fname'' (fname self))
                   | Some l \<Rightarrow> Inr l) of
               Inl e \<Rightarrow> ([], fs, Inl e)
             | Inr l \<Rightarrow>
                 (case os_path_exists fs l of
                    Inl e \<Rightarrow> ([], fs, Inl e)
                  | Inr ex \<Rightarrow>
                      if ex then
                        (case os_remove fs l of
                           Inl e \<Rightarrow> ([Exists l], fs, Inl e)
                         | Inr fs1 \<Rightarrow> ([Exists l, Remove l], fs1, Inr (PyBool True)))
                      else ([Exists l], fs, Inr (PyBool False))))
          else ([], fs, Inr PyNone))"

section \<open>Decimal text of integers\<close>

text \<open>Python's \<open>str\<close> of an integer, as \<open>format\<close> renders it.\<close>

definition digit_char :: "nat \<Rightarrow> char" where
  "digit_char d = ''0123456789'' ! d"

function str_nat :: "nat \<Rightarrow> string" where
  "str_nat n = (if n < 10 then [digit_char n] else str_nat (n div 10) @ [digit_char (n mod 10)])"
  by pat_completeness auto
termination
  by (relation "measure id") auto

declare str_nat.simps [simp del]

definition str_int :: "int \<Rightarrow> string" where
  "str_int i = (if i < 0 then CHR ''-'' # str_nat (nat (- i)) else str_nat (nat i))"

text \<open>Reading a decimal numeral back, as the array header's parser does for the shape.\<close>

definition digit_val :: "char \<Rightarrow> nat" where
  "digit_val c = of_char c - 48"

definition is_digit :: "char \<Rightarrow> bool" where
  "is_digit c = (48 \<le> (of_char c :: nat) \<and> (of_char c :: nat) < 58)"

definition parse_nat :: "string \<Rightarrow> nat" where
  "parse_nat s = foldl (\<lambda>acc c. 10 * acc + digit_val c) 0 s"

section \<open>The filename allocator (\<open>iodb._getUniqueName\<close>, lines 315-326)\<close>

text \<open>
  What one call reads from the clock: \<open>time.strftime("%Y-%m-%d")\<close> and
  \<open>time.strftime("%H%M")\<close>. The statements are those of the source in its order:
  the host name and the process id come first.
\<close>

record reading =
  curDate :: string
  curTime :: string

definition getUniqueName :: "iodb \<Rightarrow> reading \<Rightarrow> error + (string \<times> iodb)" where
  "getUniqueName self env =
     (case socket_gethostname of
        Inl e \<Rightarrow> Inl e
      | Inr hostname \<Rightarrow>
          (case os_getpid of
             Inl e \<Rightarrow> Inl e
           | Inr pid \<Rightarrow>
               (case getattr ''_counter'' (counter self) of
                  Inl e \<Rightarrow> Inl e
                | Inr c \<Rightarrow>
                    Inr (curDate env @ ''T'' @ curTime env @ ''_'' @ hostname @ ''_''
                           @ str_int pid @ ''_'' @ str_int c,
                         self\<lparr> counter := Some (c + 1) \<rparr>))))"

section \<open>Statement text (\<open>iodb.appendType\<close>, \<open>iodb.createTable\<close>)\<close>

text \<open>
  A record is a Python dictionary: the list of its items in iteration order, with
  pairwise distinct keys.
\<close>

type_synonym pydict = "(string \<times> pyval) list"

text \<open>
  \<open>np.sort(list(keys))\<close> (line 549) puts the keys into an array of fixed-width
  strings, padded with NUL characters, and sorts it by code point, which for UTF-8
  text is the lexicographic order of the bytes. An element read back from such an
  array has lost its trailing NUL characters, so the loop sees the sorted keys without
  them.
\<close>

definition rstrip_nul :: "string \<Rightarrow> string" where
  "rstrip_nul s = rev (dropWhile (\<lambda>c. c = CHR 0x00) (rev s))"

definition np_sort :: "string list \<Rightarrow> string list" where
  "np_sort keys = sort (map rstrip_nul keys)"

fun join :: "string \<Rightarrow> string list \<Rightarrow> string" where
  "join sep [] = []"
| "join sep [x] = x"
| "join sep (x # y # ys) = x @ sep @ join sep (y # ys)"

text \<open>How an f-string renders what \<open>detectType\<close> returned.\<close>

definition format_valtype :: "string option \<Rightarrow> string" where
  "format_valtype t = (case t of None \<Rightarrow> ''None'' | Some s \<Rightarrow> s)"

text \<open>The \<open>for key in keys\<close> loop of lines 554-557.\<close>

fun appendType_loop ::
  "iodb \<Rightarrow> pydict \<Rightarrow> string list \<Rightarrow> message list \<times> (error + string list)" where
  "appendType_loop self indict [] = ([], Inr [])"
| "appendType_loop self indict (key # keys) =
     (case map_of indict key of
        None \<Rightarrow> ([], Inl (KeyError key))
      | Some v \<Rightarrow>
          (case getattr ''driver'' (driver self) of
             Inl e \<Rightarrow> ([], Inl e)
           | Inr drv \<Rightarrow>
               (case detectType self v drv of
                  (out, Inl e) \<Rightarrow> (out, Inl e)
                | (out, Inr valtype) \<Rightarrow>
                    (case appendType_loop self indict keys of
                       (out2, Inl e) \<Rightarrow> (out @ out2, Inl e)
                     | (out2, Inr parameterNames) \<Rightarrow>
                         (out @ out2,
                          Inr (([CHR 0x27] @ key @ [CHR 0x27] @ '' '' @ format_valtype valtype)
                                 # parameterNames))))))"

definition appendType ::
  "iodb \<Rightarrow> pydict \<Rightarrow> bool \<Rightarrow> bool \<Rightarrow> message list \<times> (error + string)" where
  "appendType self indict useTypes sortBefore =
     (let keys = (if sortBefore then np_sort (map fst indict) else map fst indict)
      in if \<not> useTypes then
           (case getattr ''driver'' (driver self) of
              Inl e \<Rightarrow> ([], Inl e)
            | Inr drv \<Rightarrow>
                if drv = ''sqlite'' then ([], Inr (join '', '' keys))
                else map_prod id (map_sum id (join '', '')) (appendType_loop self indict keys))
         else map_prod id (map_sum id (join '', '')) (appendType_loop self indict keys))"

text \<open>
  \<open>createTable\<close> (lines 602-643) up to the call of \<open>self.execute\<close>: the result is
  the statement text handed to the driver.
\<close>

definition createTable ::
  "iodb \<Rightarrow> string \<Rightarrow> pydict \<Rightarrow> bool \<Rightarrow> string \<Rightarrow> string \<Rightarrow> bool \<Rightarrow> bool
     \<Rightarrow> message list \<times> (error + string)" where
  "createTable self tablename indict useTypes before after verbose sortBefore =
     (case appendType self indict useTypes sortBefore of
        (out, Inl e) \<Rightarrow> (out, Inl e)
      | (out, Inr parameterNames) \<Rightarrow>
          (case getattr ''driver'' (driver self) of
             Inl e \<Rightarrow> (out, Inl e)
           | Inr drv \<Rightarrow>
               if drv = ''sqlite'' then
                 (let query = ''CREATE TABLE IF NOT EXISTS '' @ tablename @ '' (''
                                @ before @ parameterNames @ after @ '')''
                  in (out @ (if verbose then [Query_text query] else []), Inr query))
               else if drv = ''postgre'' then
                 (case getattr ''_rowid'' (rowid self) of
                    Inl e \<Rightarrow> (out, Inl e)
                  | Inr rid \<Rightarrow>
                      (let query = ''CREATE TABLE IF NOT EXISTS '' @ tablename @ '' (''
                                     @ rid @ '' SERIAL PRIMARY KEY, ''
                                     @ before @ parameterNames @ after @ '')''
                       in (out @ (if verbose then [Query_text query] else []), Inr query)))
               else (out, Inl (UnboundLocalError ''query''))))"

section \<open>The array byte format (\<open>np.save\<close>, \<open>np.load\<close>)\<close>

text \<open>
  Modelled from the spec: \<open>np.save\<close> and \<open>np.load\<close>, which \<open>_adapt_array\<close> and
  the two converters call, are numpy's and not part of the source file. The model
  follows the spec's ArrayCodec (sections 4.1 and 6): a fixed magic and version prefix,
  the length of the descriptor block, the textual descriptor block naming dtype, order
  flag and shape, padded with spaces to a 64-byte boundary and closed by a newline,
  then the raw element bytes. The supported element types are the numeric dtypes of
  \<open>dtype_table\<close>, given with their width in bytes.
\<close>

definition dtype_table :: "(string \<times> nat) list" where
  "dtype_table =
     [(''|b1'', 1), (''|i1'', 1), (''|u1'', 1),
      (''<i2'', 2), (''<i4'', 4), (''<i8'', 8), (''<u2'', 2), (''<u4'', 4), (''<u8'', 8),
      (''<f2'', 2), (''<f4'', 4), (''<f8'', 8), (''<c8'', 8), (''<c16'', 16),
      (''>i2'', 2), (''>i4'', 4), (''>i8'', 8), (''>u2'', 2), (''>u4'', 4), (''>u8'', 8),
      (''>f2'', 2), (''>f4'', 4), (''>f8'', 8), (''>c8'', 8), (''>c16'', 16)]"

definition itemsize :: "string \<Rightarrow> nat option" where
  "itemsize d = map_of dtype_table d"

text \<open>
  A supported array: a dtype of the table, at most 32 dimensions, each below
  \<open>2^63\<close> (numpy's own limits), and as many element bytes as dtype and shape ask for.
\<close>

definition supported :: "ndarray \<Rightarrow> bool" where
  "supported a =
     (case itemsize (descr a) of
        None \<Rightarrow> False
      | Some sz \<Rightarrow>
          length (shape a) \<le> 32 \<and> list_all (\<lambda>n. n < 2 ^ 63) (shape a)
          \<and> length (data a) = sz * prod_list (shape a))"

definition magic :: bytes where
  "magic = [CHR 0x93, CHR ''N'', CHR ''U'', CHR ''M'', CHR ''P'', CHR ''Y'']"

definition version :: bytes where
  "version = [CHR 0x01, CHR 0x00]"

definition key_descr :: string where
  "key_descr = ''{'descr': '' @ [CHR 0x27]"

definition key_order :: string where
  "key_order = CHR 0x27 # '', 'fortran_order': ''"

definition key_shape :: string where
  "key_shape = '', 'shape': ''"

definition dict_close :: string where
  "dict_close = '', }''"

definition bool_text :: "bool \<Rightarrow> string" where
  "bool_text b = (if b then ''True'' else ''False'')"

text \<open>The items of a non-empty shape tuple after the opening parenthesis.\<close>

fun items_text :: "nat \<Rightarrow> nat list \<Rightarrow> string" where
  "items_text n [] = str_nat n @ '')''"
| "items_text n (m # ms) = str_nat n @ '', '' @ items_text m ms"

fun shape_text :: "nat list \<Rightarrow> string" where
  "shape_text [] = ''()''"
| "shape_text [n] = ''('' @ str_nat n @ '',)''"
| "shape_text (n # m # ms) = ''('' @ items_text n (m # ms)"

definition dict_text :: "ndarray \<Rightarrow> string" where
  "dict_text a =
     key_descr @ descr a @ key_order @ bool_text (fortran_order a) @ key_shape
       @ shape_text (shape a) @ dict_close"

definition header_text :: "ndarray \<Rightarrow> string" where
  "header_text a =
     (let d = dict_text a;
          padlen = 64 - ((10 + length d + 1) mod 64)
      in d @ replicate padlen CHR '' '' @ [CHR 0x0A])"

definition le16 :: "nat \<Rightarrow> bytes" where
  "le16 n = [char_of (n mod 256), char_of (n div 256)]"

text \<open>
  Modelled from the spec: \<open>np.save\<close> (numpy's, absent from the source), the spec's
  \<open>encode\<close>: magic and version, the two-byte little-endian length of the descriptor
  block, the block, the raw element bytes. This is what numpy writes through a file
  object for format version 1.0.
\<close>

definition np_save :: "ndarray \<Rightarrow> bytes" where
  "np_save a =
     (let h = header_text a in magic @ version @ le16 (length h) @ h @ data a)"

definition strip_prefix :: "string \<Rightarrow> string \<Rightarrow> string option" where
  "strip_prefix p s = (if take (length p) s = p then Some (drop (length p) s) else None)"

definition parse_bool :: "string \<Rightarrow> (bool \<times> string) option" where
  "parse_bool s =
     (case strip_prefix ''True'' s of
        Some r \<Rightarrow> Some (True, r)
      | None \<Rightarrow> map_option (Pair False) (strip_prefix ''False'' s))"

function parse_items :: "bool \<Rightarrow> string \<Rightarrow> (nat list \<times> string) option" where
  "parse_items first s =
     (let ds = takeWhile is_digit s; r = dropWhile is_digit s
      in if ds = [] then None
         else if take 2 r = '', '' then
           map_option (\<lambda>(ns, rest). (parse_nat ds # ns, rest)) (parse_items False (drop 2 r))
         else if first \<and> take 2 r = '',)'' then Some ([parse_nat ds], drop 2 r)
         else if \<not> first \<and> take 1 r = '')'' then Some ([parse_nat ds], drop 1 r)
         else None)"
  by pat_completeness auto
termination
proof (relation "measure (\<lambda>(first, s). length s)")
  show "wf (measure (\<lambda>(first, s). length s))" by simp
next
  fix first :: bool and s ds r :: string
  assume "ds = takeWhile is_digit s" and "r = dropWhile is_digit s" and "ds \<noteq> []"
  then have "length r < length s"
    by (cases s) (auto simp: le_imp_less_Suc length_dropWhile_le split: if_splits)
  then show "((False, drop 2 r), (first, s)) \<in> measure (\<lambda>(first, s). length s)"
    by simp
qed

declare parse_items.simps [simp del]

definition parse_shape :: "string \<Rightarrow> (nat list \<times> string) option" where
  "parse_shape s =
     (case strip_prefix ''()'' s of
        Some r \<Rightarrow> Some ([], r)
      | None \<Rightarrow> Option.bind (strip_prefix ''('' s) (parse_items True))"

definition parse_header :: "string \<Rightarrow> (string \<times> bool \<times> nat list) option" where
  "parse_header h =
     Option.bind (strip_prefix key_descr h) (\<lambda>r1.
       let d = takeWhile (\<lambda>c. c \<noteq> CHR 0x27) r1
       in Option.bind (strip_prefix key_order (dropWhile (\<lambda>c. c \<noteq> CHR 0x27) r1)) (\<lambda>r2.
            Option.bind (parse_bool r2) (\<lambda>(fo, r3).
              Option.bind (strip_prefix key_shape r3) (\<lambda>r4.
                Option.bind (parse_shape r4) (\<lambda>(ns, r5).
                  Option.bind (strip_prefix dict_close r5) (\<lambda>r6.
                    if dropWhile (\<lambda>c. c = CHR '' '') r6 = [CHR 0x0A]
                    then Some (d, fo, ns) else None))))))"

text \<open>
  Modelled from the spec: \<open>np.load\<close> (numpy's, absent from the source), the spec's
  \<open>decode\<close>: it validates magic and version (\<open>FormatError\<close> on mismatch), parses
  the descriptor block, fails with \<open>UnsupportedDtypeError\<close> on a dtype outside the
  table, and copies as many element bytes as dtype and shape ask for. The descriptor
  parser accepts the layout that \<open>header_text\<close> writes.
\<close>

definition np_load :: "bytes \<Rightarrow> error + ndarray" where
  "np_load b =
     (if take 6 b \<noteq> magic then Inl FormatError
      else if take 2 (drop 6 b) \<noteq> version then Inl FormatError
      else if length b < 10 then Inl FormatError
      else
        (let hlen = of_char (b ! 8) + 256 * of_char (b ! 9);
             h = take hlen (drop 10 b);
             body = drop (10 + hlen) b
         in if length h < hlen then Inl FormatError
            else
              (case parse_header h of
                 None \<Rightarrow> Inl FormatError
               | Some (d, fo, ns) \<Rightarrow>
                   (case itemsize d of
                      None \<Rightarrow> Inl (UnsupportedDtypeError d)
                    | Some sz \<Rightarrow>
                        if length body < sz * prod_list ns then Inl FormatError
                        else Inr \<lparr> descr = d, fortran_order = fo, shape = ns,
                                   data = take (sz * prod_list ns) body \<rparr>))))"

section \<open>The converters (\<open>_adapt_array\<close>, \<open>_typecast_array\<close>, \<open>_typecast_array_ext\<close>)\<close>

text \<open>An \<open>io.BytesIO\<close> object: its buffer and its position.\<close>

record bytesio =
  buf :: bytes
  pos :: nat

definition BytesIO :: "bytes \<Rightarrow> bytesio" where
  "BytesIO initial = \<lparr> buf = initial, pos = 0 \<rparr>"

definition bio_write :: "bytesio \<Rightarrow> bytes \<Rightarrow> bytesio" where
  "bio_write f b =
     \<lparr> buf = take (pos f) (buf f) @ replicate (pos f - length (buf f)) (CHR 0x00) @ b
               @ drop (pos f + length b) (buf f),
       pos = pos f + length b \<rparr>"

definition bio_seek :: "bytesio \<Rightarrow> nat \<Rightarrow> bytesio" where
  "bio_seek f n = f\<lparr> pos := n \<rparr>"

definition bio_read :: "bytesio \<Rightarrow> bytes \<times> bytesio" where
  "bio_read f = (drop (pos f) (buf f), f\<lparr> pos := max (pos f) (length (buf f)) \<rparr>)"

text \<open>
  What the converters take from the database driver and the standard library:
  psycopg2's typecasters \<open>BINARY\<close> and \<open>STRING\<close> (from the value the server sent to
  bytes and to text), \<open>bytes.decode("utf-8")\<close> and the decompression behind
  \<open>gzip.open\<close>. They are parameters of the model. A cursor has no content of its own.
  \<open>self.sql\<close> is bound exactly when \<open>self.driver\<close> is: to \<open>sqlite3\<close> for sqlite
  and to \<open>psycopg2\<close> for postgres. Both modules have \<open>Binary\<close>; only \<open>psycopg2\<close>
  has \<open>BINARY\<close> and \<open>STRING\<close>, so on a sqlite session \<open>self.sql.BINARY\<close> and
  \<open>self.sql.STRING\<close> raise \<open>AttributeError\<close>.
\<close>

record library =
  pg_BINARY :: "bytes \<Rightarrow> bytes"
  pg_STRING :: "bytes \<Rightarrow> string"
  utf8_decode :: "bytes \<Rightarrow> error + string"
  gunzip :: "bytes \<Rightarrow> error + bytes"

datatype cursor = Cursor

text \<open>
  \<open>_adapt_array\<close> (lines 252-257). \<open>sql.Binary\<close> wraps the bytes it is given
  without changing them.
\<close>

definition adapt_array :: "iodb \<Rightarrow> ndarray \<Rightarrow> error + bytes" where
  "adapt_array self arr =
     (let out = BytesIO [];
          out1 = bio_write out (np_save arr);
          out2 = bio_seek out1 0
      in case getattr ''sql'' (driver self) of
           Inl e \<Rightarrow> Inl e
         | Inr sql \<Rightarrow> Inr (fst (bio_read out2)))"

text \<open>
  \<open>_typecast_array\<close> (lines 259-269). \<open>io.BytesIO(None)\<close> is an empty buffer.
\<close>

definition typecast_array ::
  "library \<Rightarrow> iodb \<Rightarrow> bytes option \<Rightarrow> cursor option \<Rightarrow> error + ndarray option" where
  "typecast_array lib self val cur =
     (if val = None \<and> cur \<noteq> None then Inr None
      else
        (case (if cur \<noteq> None then
                 (case getattr ''sql'' (driver self) of
                    Inl e \<Rightarrow> Inl e
                  | Inr drv \<Rightarrow>
                      if drv = ''sqlite'' then Inl (AttributeError ''BINARY'')
                      else Inr (map_option (pg_BINARY lib) val))
               else Inr val) of
           Inl e \<Rightarrow> Inl e
         | Inr val1 \<Rightarrow>
             (let bdata = BytesIO (case val1 of None \<Rightarrow> [] | Some b \<Rightarrow> b);
                  bdata1 = bio_seek bdata 0
              in map_sum id Some (np_load (fst (bio_read bdata1))))))"

definition file_bytes :: "filesystem \<Rightarrow> string \<Rightarrow> bytes" where
  "file_bytes fs p = (case fs p of Some (File b) \<Rightarrow> b | _ \<Rightarrow> [])"

text \<open>
  \<open>_typecast_array_ext\<close> (lines 294-313). The events are the filesystem calls made.
  \<open>os.path.isfile\<close> on the compressed sibling is only evaluated when
  \<open>self.loadZipped\<close> is true; \<open>os.path.isfile\<close> on the file itself is evaluated
  when the first test is false.
\<close>

definition typecast_array_ext ::
  "library \<Rightarrow> iodb \<Rightarrow> bytes option \<Rightarrow> cursor option \<Rightarrow> filesystem
     \<Rightarrow> event list \<times> (error + ndarray option)" where
  "typecast_array_ext lib self val cur fs =
     (if val = None \<and> cur \<noteq> None then ([], Inr None)
      else
        (case (if cur \<noteq> None then
                 (case getattr ''sql'' (driver self) of
                    Inl e \<Rightarrow> Inl e
                  | Inr drv \<Rightarrow>
                      if drv = ''sqlite'' then Inl (AttributeError ''STRING'')
                      else
                        (case val of
                           None \<Rightarrow> Inl (AttributeError ''decode'')
                         | Some v \<Rightarrow> Inr (pg_STRING lib v)))
               else
                 (case val of
                    None \<Rightarrow> Inl (AttributeError ''decode'')
                  | Some v \<Rightarrow> utf8_decode lib v)) of
           Inl e \<Rightarrow> ([], Inl e)
         | Inr ref \<Rightarrow>
             (let fname = spath self @ ref @ ''.npy'';
                  zipped = (if loadZipped self then os_path_isfile fs (fname @ ''.gz'')
                            else Inr False)
              in case zipped of
                   Inl e \<Rightarrow> ([], Inl e)
                 | Inr z \<Rightarrow>
                     (let probe = (if loadZipped self then [Isfile (fname @ ''.gz'')] else [])
                      in if z then
                           (probe @ [Read_file (fname @ ''.gz'')],
                            (case gunzip lib (file_bytes fs (fname @ ''.gz'')) of
                               Inl e \<Rightarrow> Inl e
                             | Inr raw \<Rightarrow> map_sum id Some (np_load raw)))
                         else
                           (case os_path_isfile fs fname of
                              Inl e \<Rightarrow> (probe, Inl e)
                            | Inr f \<Rightarrow>
                                if f then
                                  (probe @ [Isfile fname, Read_file fname],
                                   map_sum id Some (np_load (file_bytes fs fname)))
                                else
                                  (probe @ [Isfile fname],
                                   Inl (FileNotFoundError fname)))))))"

section \<open>Example sessions\<close>

text \<open>
  The sessions \<open>iodb("sqlite", "intern")\<close>, the same with \<open>loadZipped=True\<close>, the
  first after \<open>start(filename="db.sqlite")\<close>, and \<open>iodb("postgre", "intern")\<close>.
\<close>

abbreviation example_sqlite :: iodb where
  "example_sqlite \<equiv>
     \<lparr> driver = Some ''sqlite'', rowid = Some ''rowid'', arrayType = Some ''ARRAY'',
       arrayType_ext = Some ''ARRAY_EXT'', loadZipped = False, storage = ''intern'',
       spath = ''./'', counter = None, folder = None, fname = None \<rparr>"

abbreviation example_zipped :: iodb where
  "example_zipped \<equiv> example_sqlite\<lparr> loadZipped := True \<rparr>"

abbreviation example_started :: iodb where
  "example_started \<equiv> example_sqlite\<lparr> fname := Some ''db.sqlite'' \<rparr>"

abbreviation example_postgres :: iodb where
  "example_postgres \<equiv>
     \<lparr> driver = Some ''postgre'', rowid = Some ''oid'', arrayType = Some ''BYTEA'',
       arrayType_ext = Some ''TEXT'', loadZipped = False, storage = ''intern'',
       spath = ''./'', counter = None, folder = None, fname = None \<rparr>"

text \<open>A 0-dimensional array holding the 64-bit integer 3, and an array of length zero.\<close>

abbreviation example_scalar :: ndarray where
  "example_scalar \<equiv>
     \<lparr> descr = ''<i8'', fortran_order = False, shape = [],
       data = [CHR 0x03, CHR 0x00, CHR 0x00, CHR 0x00, CHR 0x00, CHR 0x00, CHR 0x00,
               CHR 0x00] \<rparr>"

abbreviation example_empty :: ndarray where
  "example_empty \<equiv> \<lparr> descr = ''<f8'', fortran_order = False, shape = [0], data = [] \<rparr>"

text \<open>
  A stand-in for the library functions, for the examples: typecasters and decoder that
  hand their argument on, and a compression that puts the two bytes \<open>GZ\<close> in front.
\<close>

abbreviation example_library :: library where
  "example_library \<equiv>
     \<lparr> pg_BINARY = (\<lambda>b. b), pg_STRING = (\<lambda>b. b), utf8_decode = Inr,
       gunzip = (\<lambda>b. case strip_prefix ''GZ'' b of
                         None \<Rightarrow> Inl BadGzipFile | Some raw \<Rightarrow> Inr raw) \<rparr>"


section \<open>Facts about the example sessions\<close>

lemma example_sqlite_init:
  "iodb_init ''sqlite'' ''intern'' ''./'' False False today fs = ([], fs, Inr example_sqlite)"
  by (simp add: iodb_init_def)

lemma example_zipped_init:
  "iodb_init ''sqlite'' ''intern'' ''./'' True False today fs = ([], fs, Inr example_zipped)"
  by (simp add: iodb_init_def)

lemma example_postgres_init:
  "iodb_init ''postgre'' ''intern'' ''./'' False False today fs
     = ([], fs, Inr example_postgres)"
  by (simp add: iodb_init_def)

lemma example_started_start:
  "start example_sqlite ''db.sqlite'' = Inr example_started"
  by (simp add: start_def getattr_def)

section \<open>Properties of type inference\<close>

lemma isinstance_simps [simp]:
  "isinstance v [] = False"
  "isinstance v (c # cs) = (c = type_of v \<or> c \<in> set (bases (type_of v)) \<or> isinstance v cs)"
  by (cases "type_of v"; auto simp: isinstance_def list_ex_iff)+

lemma detectType_single:
  "items v = [x] \<Longrightarrow> type_of v = T_list \<or> type_of v = T_tuple \<Longrightarrow>
   detectType self v d
     = (Single_element_warning v # fst (detectType self x d), snd (detectType self x d))"
  by (subst detectType.simps) (cases v; auto simp: len_def split: prod.splits)

text \<open>
  Claim C2. Inference on a plain array returns the session's embedded-array column
  type. The claim adds that inference on an array wrapped in \<open>ndarray_ext\<close> returns the
  external-array-reference type and does not raise. In the code the test
  \<open>type(value) == ndarray_ext\<close> sits inside the branch \<open>isinstance(value, np.ndarray)\<close>,
  which a wrapped array never enters: \<open>ndarray_ext\<close> is not a subclass of
  \<open>np.ndarray\<close>. A wrapped array falls through to the last branch and
  \<open>detectType\<close> raises \<open>TypeError\<close>, for every session and every driver name.
\<close>

theorem detectType_ndarray_ext_raises:
  "detectType self (Ndarray a) dbdriver
     = ([], map_sum id Some (getattr ''_arrayType'' (arrayType self)))
   \<and> detectType self (Ndarray_ext a) dbdriver
     = ([], Inl (TypeError T_ndarray_ext (Ndarray_ext a)))"
  by (simp add: detectType.simps)

text \<open>
  Claim C4, as stated, fails for sqlite: inference on \<open>True\<close> and inference on \<open>1\<close>
  both return \<open>INTEGER\<close> there, so the two type names are not distinct.
\<close>

theorem detectType_bool_int_sqlite_same:
  "detectType example_sqlite (PyBool True) ''sqlite'' = ([], Inr (Some ''INTEGER''))
   \<and> detectType example_sqlite (PyInt 1) ''sqlite'' = ([], Inr (Some ''INTEGER''))
   \<and> detectType example_sqlite (PyBool True) ''sqlite''
       = detectType example_sqlite (PyInt 1) ''sqlite''"
  by (simp add: detectType.simps)

text \<open>
  Claim C4, amended. For postgres, inference on a boolean yields the boolean column
  type \<open>BOOL\<close> and inference on an integer yields the integer column type \<open>INTEGER\<close>,
  and the two names are distinct. For sqlite, inference on a boolean is decided by the
  boolean branch, before the integer branch, and yields \<open>INTEGER\<close>, the same name as
  inference on an integer.
\<close>

theorem detectType_bool_int:
  "detectType self (PyBool b) ''postgre'' = ([], Inr (Some ''BOOL''))
   \<and> detectType self (PyInt i) ''postgre'' = ([], Inr (Some ''INTEGER''))
   \<and> ''BOOL'' \<noteq> ''INTEGER''
   \<and> detectType self (PyBool b) ''sqlite'' = ([], Inr (Some ''INTEGER''))
   \<and> detectType self (PyInt i) ''sqlite'' = ([], Inr (Some ''INTEGER''))"
  by (simp add: detectType.simps)

text \<open>
  Claim C5. Inference on a list or tuple of one element returns (or raises) what
  inference on the element does, after printing the warning that only the element is
  saved. Inference on a list or tuple of more than one element raises \<open>TypeError\<close>
  (the spec's UnsupportedTypeError), which carries the runtime type of the offending
  value and the value.
\<close>

theorem detectType_sequence:
  "detectType self (PyList [x]) d
     = (Single_element_warning (PyList [x]) # fst (detectType self x d),
        snd (detectType self x d))
   \<and> detectType self (PyTuple [x]) d
     = (Single_element_warning (PyTuple [x]) # fst (detectType self x d),
        snd (detectType self x d))
   \<and> (1 < length xs \<longrightarrow>
        detectType self (PyList xs) d = ([], Inl (TypeError T_list (PyList xs)))
      \<and> detectType self (PyTuple xs) d = ([], Inl (TypeError T_tuple (PyTuple xs))))"
  by (simp add: detectType_single) (simp add: detectType.simps len_def)

theorem detectType_sequence_witness:
  "snd (detectType example_sqlite (PyList [PyInt 5]) ''sqlite'') = Inr (Some ''INTEGER'')
   \<and> snd (detectType example_sqlite (PyInt 5) ''sqlite'') = Inr (Some ''INTEGER'')
   \<and> detectType example_sqlite (PyList [PyInt 5, PyInt 6]) ''sqlite''
       = ([], Inl (TypeError T_list (PyList [PyInt 5, PyInt 6])))"
  using detectType_sequence [of example_sqlite "PyInt 5" "''sqlite''" "[PyInt 5, PyInt 6]"]
  by (simp add: detectType.simps)

section \<open>Properties of the advisory lock\<close>

lemma lock_loop_NameError:
  "lock_loop lockfilename repeat t c tr fs = (tr, fs, Inl (NameError ''os''))"
  by (subst lock_loop.simps) (simp add: lock_attempt_def os_path_exists_def)

lemma lock_sqlite_NameError:
  "driver self = Some ''sqlite'' \<Longrightarrow> fname self = Some fn \<Longrightarrow>
   lock self suffix repeat t fs = ([], fs, Inl (NameError ''os''))"
  by (simp add: lock_def getattr_def lock_loop_NameError)

lemma release_sqlite_NameError:
  "driver self = Some ''sqlite'' \<Longrightarrow> fname self = Some fn \<Longrightarrow>
   release self None suffix fs = ([], fs, Inl (NameError ''os''))
   \<and> release self (Some l) suffix fs = ([], fs, Inl (NameError ''os''))"
  by (simp add: release_def getattr_def os_path_exists_def)

text \<open>
  Claim C3 says that \<open>lock\<close> on a path whose marker file is absent creates the marker
  and returns the success result. In the code the first statement of the loop, line
  434, evaluates \<open>os.path.exists\<close> with \<open>os\<close> unbound: for a started sqlite session,
  every suffix, every \<open>repeat\<close> and every \<open>timeoutCounter\<close>, the call raises
  \<open>NameError\<close>, makes no filesystem call and leaves the filesystem as it was, so no
  marker is created and nothing is returned.
\<close>

theorem lock_raises_NameError:
  assumes "driver self = Some ''sqlite''" and "fname self = Some fn"
    and "fs (fn @ suffix) = None"
  shows "lock self suffix repeat t fs = ([], fs, Inl (NameError ''os''))
       \<and> fst (snd (lock self suffix repeat t fs)) (fn @ suffix) = None"
  using assms by (simp add: lock_sqlite_NameError)

theorem lock_raises_NameError_witness:
  "driver example_started = Some ''sqlite''
   \<and> fname example_started = Some ''db.sqlite''
   \<and> Map.empty ''db.sqlite.lock'' = (None :: node option)
   \<and> lock example_started ''.lock'' 0 1000 Map.empty
       = ([], Map.empty, Inl (NameError ''os''))
   \<and> lock example_started ''.lock'' 1 1000 Map.empty
       = ([], Map.empty, Inl (NameError ''os''))"
proof -
  have d: "driver example_started = Some ''sqlite''"
    and f: "fname example_started = Some ''db.sqlite''"
    by simp_all
  have a: "(Map.empty :: filesystem) (''db.sqlite'' @ ''.lock'') = None" by simp
  note t = lock_raises_NameError [OF d f a, THEN conjunct1]
  have a': "Map.empty ''db.sqlite.lock'' = (None :: node option)" by simp
  show ?thesis
    by (rule conjI [OF d conjI [OF f conjI [OF a' conjI [OF t t]]]])
qed

text \<open>
  Claim C7 says that two calls of \<open>lock\<close> with \<open>repeat = 0\<close> on an absent marker
  return Acquired and then Busy, and that a polling call on a held lock returns
  TimeoutExceeded. In the code, for a started sqlite session, the first call raises
  \<open>NameError\<close> at line 434 and leaves the filesystem unchanged, the second call does
  the same, and a polling call on a marker that is present raises \<open>NameError\<close> in its
  first pass: it never sleeps and never prints the timeout warning.
\<close>

theorem lock_sequence_raises_NameError:
  assumes "driver self = Some ''sqlite''" and "fname self = Some fn"
  shows "lock self suffix 0 t fs = ([], fs, Inl (NameError ''os''))
       \<and> lock self suffix 0 t' (fst (snd (lock self suffix 0 t fs)))
           = ([], fs, Inl (NameError ''os''))
       \<and> (0 < repeat \<and> fs (fn @ suffix) \<noteq> None \<longrightarrow>
            lock self suffix repeat t fs = ([], fs, Inl (NameError ''os'')))"
  using assms by (simp add: lock_sqlite_NameError)

theorem lock_sequence_raises_NameError_witness:
  "driver example_started = Some ''sqlite''
   \<and> fname example_started = Some ''db.sqlite''
   \<and> lock example_started ''.lock'' 0 1000 Map.empty
       = ([], Map.empty, Inl (NameError ''os''))
   \<and> lock example_started ''.lock'' 0 1000
         (fst (snd (lock example_started ''.lock'' 0 1000 Map.empty)))
       = ([], Map.empty, Inl (NameError ''os''))
   \<and> lock example_started ''.lock'' 5 1000 [''db.sqlite.lock'' \<mapsto> File []]
       = ([], [''db.sqlite.lock'' \<mapsto> File []], Inl (NameError ''os''))"
proof -
  have d: "driver example_started = Some ''sqlite''"
    and f: "fname example_started = Some ''db.sqlite''"
    by simp_all
  note t = lock_sequence_raises_NameError [OF d f, where suffix = "''.lock''"]
  have r1: "lock example_started ''.lock'' 0 1000 Map.empty
              = ([], Map.empty, Inl (NameError ''os''))"
    by (rule t [THEN conjunct1])
  have r2: "lock example_started ''.lock'' 0 1000
              (fst (snd (lock example_started ''.lock'' 0 1000 Map.empty)))
            = ([], Map.empty, Inl (NameError ''os''))"
    by (rule t [THEN conjunct2, THEN conjunct1])
  have h: "(0::int) < 5
           \<and> [''db.sqlite.lock'' \<mapsto> File []] (''db.sqlite'' @ ''.lock'') \<noteq> None"
    by simp
  have r3: "lock example_started ''.lock'' 5 1000 [''db.sqlite.lock'' \<mapsto> File []]
       = ([], [''db.sqlite.lock'' \<mapsto> File []], Inl (NameError ''os''))"
    by (rule t [where fs = "[''db.sqlite.lock'' \<mapsto> File []]" and repeat = 5
          and t = 1000, THEN conjunct2, THEN conjunct2, THEN mp, OF h])
  show ?thesis
    by (rule conjI [OF d conjI [OF f conjI [OF r1 conjI [OF r2 r3]]]])
qed


section \<open>Properties of the decimal text\<close>

lemma less_10_cases:
  "d < 10 \<Longrightarrow> d = 0 \<or> d = 1 \<or> d = 2 \<or> d = 3 \<or> d = 4 \<or> d = 5 \<or> d = 6 \<or> d = 7
     \<or> d = 8 \<or> d = (9::nat)"
  by arith

lemma digit_val_digit_char: "d < 10 \<Longrightarrow> digit_val (digit_char d) = d"
  by (drule less_10_cases) (auto simp: digit_val_def digit_char_def)

lemma is_digit_digit_char: "d < 10 \<Longrightarrow> is_digit (digit_char d)"
  by (drule less_10_cases) (auto simp: is_digit_def digit_char_def)

lemma parse_nat_snoc: "parse_nat (s @ [c]) = 10 * parse_nat s + digit_val c"
  by (simp add: parse_nat_def)

lemma parse_str_nat: "parse_nat (str_nat n) = n"
proof (induction n rule: str_nat.induct)
  case (1 n)
  show ?case
  proof (cases "n < 10")
    case True
    then show ?thesis
      by (subst str_nat.simps) (simp add: parse_nat_def digit_val_digit_char)
  next
    case False
    with 1 have "parse_nat (str_nat (n div 10)) = n div 10" by simp
    with False show ?thesis
      by (subst str_nat.simps) (simp add: parse_nat_snoc digit_val_digit_char)
  qed
qed

lemma str_nat_digits: "\<forall>c\<in>set (str_nat n). is_digit c"
proof (induction n rule: str_nat.induct)
  case (1 n)
  show ?case
  proof (cases "n < 10")
    case True
    then show ?thesis
      by (subst str_nat.simps) (simp add: is_digit_digit_char)
  next
    case False
    with 1 show ?thesis
      by (subst str_nat.simps) (simp add: is_digit_digit_char)
  qed
qed

lemma str_int_examples:
  "str_int 1234 = ''1234''" "str_int (-5) = ''-5''" "str_int 0 = ''0''"
  by (simp_all add: str_int_def str_nat.simps digit_char_def)


section \<open>Properties of the filename allocator\<close>

text \<open>
  Claim C8 says that successive calls of the allocator within a session return
  pairwise distinct names with the counter running from 1. In the code no such session
  exists and no name is returned: the constructor for external or mixed storage raises
  \<open>NameError\<close> at line 189 (\<open>os\<close> is unbound), whatever the other arguments are, and
  \<open>_getUniqueName\<close> on any object raises \<open>NameError\<close> at line 317 (\<open>socket\<close> is
  unbound) before it reads the counter.
\<close>

theorem allocator_raises_NameError:
  "getUniqueName self env = Inl (NameError ''socket'')
   \<and> (stor = ''extern'' \<or> stor = ''mixed'' \<longrightarrow>
        snd (iodb_init drv stor storagePath loadZ readOnly today fs)
          = (fs, Inl (NameError ''os'')))"
  by (auto simp: getUniqueName_def socket_gethostname_def iodb_init_def os_path_exists_def
      Let_def split: prod.splits)

theorem allocator_raises_NameError_witness:
  "getUniqueName example_sqlite \<lparr> curDate = ''2024-01-01'', curTime = ''0930'' \<rparr>
     = Inl (NameError ''socket'')
   \<and> snd (iodb_init ''sqlite'' ''extern'' ''./'' False False ''2024-01-01'' Map.empty)
     = (Map.empty, Inl (NameError ''os''))
   \<and> snd (iodb_init ''sqlite'' ''mixed'' ''./'' False True ''2024-01-01'' Map.empty)
     = (Map.empty, Inl (NameError ''os''))"
proof -
  note t = allocator_raises_NameError
  have e: "''extern'' = ''extern'' \<or> ''extern'' = ''mixed''"
    and m: "''mixed'' = ''extern'' \<or> ''mixed'' = ''mixed''"
    by simp_all
  show ?thesis
    by (rule conjI [OF t [THEN conjunct1]
          conjI [OF t [THEN conjunct2, THEN mp, OF e] t [THEN conjunct2, THEN mp, OF m]]])
qed


section \<open>Properties of the statement text\<close>

lemma appendType_loop_cong:
  "map_of xs = map_of ys \<Longrightarrow> appendType_loop self xs = appendType_loop self ys"
proof (rule ext)
  fix keys
  assume "map_of xs = map_of ys"
  then show "appendType_loop self xs keys = appendType_loop self ys keys"
    by (induction keys)
      (simp_all cong: option.case_cong sum.case_cong prod.case_cong)
qed

lemma same_items_sorted_keys:
  assumes "distinct (map fst xs)" "distinct (map fst ys)" "set xs = set ys"
  shows "np_sort (map fst xs) = np_sort (map fst ys)" and "map_of xs = map_of ys"
proof -
  have "distinct xs" "distinct ys"
    using assms(1,2) by (auto simp: distinct_map)
  then have "mset xs = mset ys"
    using assms(3) by (simp add: set_eq_iff_mset_eq_distinct)
  then have "mset (map rstrip_nul (map fst xs)) = mset (map rstrip_nul (map fst ys))"
    by (metis mset_map)
  then show "np_sort (map fst xs) = np_sort (map fst ys)"
    unfolding np_sort_def by (metis properties_for_sort sorted_sort mset_sort)
  show "map_of xs = map_of ys"
    using assms by (simp add: map_of_inject_set)
qed

lemma rstrip_nul_id: "rstrip_nul k = k \<longleftrightarrow> (k = [] \<or> last k \<noteq> CHR 0x00)"
proof (cases k rule: rev_cases)
  case Nil
  then show ?thesis by (simp add: rstrip_nul_def)
next
  case (snoc ys y)
  show ?thesis
  proof (cases "y = CHR 0x00")
    case True
    have "length (dropWhile (\<lambda>c. c = CHR 0x00) (rev ys)) \<le> length (rev ys)"
      by (rule length_dropWhile_le)
    then have le: "length (rstrip_nul (ys @ [CHR 0x00])) \<le> length ys"
      by (simp add: rstrip_nul_def)
    have "rstrip_nul (ys @ [CHR 0x00]) \<noteq> ys @ [CHR 0x00]"
    proof
      assume "rstrip_nul (ys @ [CHR 0x00]) = ys @ [CHR 0x00]"
      then have "length (rstrip_nul (ys @ [CHR 0x00])) = Suc (length ys)" by simp
      with le show False by simp
    qed
    with snoc True show ?thesis by simp
  next
    case False
    with snoc show ?thesis by (simp add: rstrip_nul_def)
  qed
qed

lemma appendType_loop_columns:
  "appendType_loop self xs ks = (out, Inr cols) \<Longrightarrow>
   length cols = length ks
   \<and> (\<forall>i<length ks. \<exists>ty. cols ! i = [CHR 0x27] @ ks ! i @ [CHR 0x27] @ '' '' @ ty)"
proof (induction ks arbitrary: out cols)
  case Nil
  then show ?case by simp
next
  case (Cons k ks)
  from Cons.prems obtain v drv o1 t o2 cs where
    l: "appendType_loop self xs ks = (o2, Inr cs)"
    and c: "cols = ([CHR 0x27] @ k @ [CHR 0x27] @ '' '' @ format_valtype t) # cs"
    by (auto split: option.splits sum.splits prod.splits)
  from Cons.IH [OF l] have n: "length cs = length ks"
    and a: "\<forall>i<length ks. \<exists>ty. cs ! i = [CHR 0x27] @ ks ! i @ [CHR 0x27] @ '' '' @ ty"
    by blast+
  show ?case
  proof (intro conjI allI impI)
    show "length cols = length (k # ks)" using c n by simp
  next
    fix i assume "i < length (k # ks)"
    then show "\<exists>ty. cols ! i = [CHR 0x27] @ (k # ks) ! i @ [CHR 0x27] @ '' '' @ ty"
      using a c by (cases i) auto
  qed
qed

lemma createTable_typed_text:
  assumes "createTable self tn xs True before after verbose sortBefore = (out, Inr q)"
  shows "\<exists>o1 cols.
           appendType_loop self xs (if sortBefore then np_sort (map fst xs) else map fst xs)
             = (o1, Inr cols)
         \<and> q = ''CREATE TABLE IF NOT EXISTS '' @ tn @ '' (''
               @ (if driver self = Some ''sqlite'' then []
                  else (case rowid self of Some rid \<Rightarrow> rid | None \<Rightarrow> [])
                         @ '' SERIAL PRIMARY KEY, '')
               @ before @ join '', '' cols @ after @ '')''"
proof -
  obtain o1 r where l:
    "appendType_loop self xs (if sortBefore then np_sort (map fst xs) else map fst xs)
       = (o1, r)"
    by (cases "appendType_loop self xs
                 (if sortBefore then np_sort (map fst xs) else map fst xs)")
  have ap: "appendType self xs True sortBefore = (o1, map_sum id (join '', '') r)"
    using l by (simp add: appendType_def Let_def)
  show ?thesis
  proof (cases r)
    case (Inl e)
    with assms ap show ?thesis by (simp add: createTable_def)
  next
    case (Inr cols)
    with assms ap l show ?thesis
      by (auto simp: createTable_def getattr_def Let_def
          split: option.splits if_splits)
  qed
qed

lemma createTable_trailing_nul_example:
  "createTable example_sqlite ''t'' [(''a'' @ [CHR 0x00], PyInt 1), (''b'', PyInt 2)]
     True [] [] False True
   = ([], Inl (KeyError ''a''))"
  by (simp add: createTable_def appendType_def np_sort_def rstrip_nul_def)

text \<open>
  Claim C9. With column sorting enabled, two records that hold the same name/value
  pairs in different iteration orders give the same result of \<open>createTable\<close>: the
  same statement text (or the same error) and the same printed lines. The names that
  the loop walks through are in sorted order; they are the record's names without
  trailing NUL characters, so they are the record's own names when none ends in NUL.
  With types, a generated statement lists one column per name, the i-th column being
  the i-th name in sorted order, quoted and followed by its type; without types (for
  sqlite) it lists the names in sorted order.
\<close>

theorem createTable_sorted_deterministic:
  assumes "distinct (map fst xs)" and "distinct (map fst ys)" and "set xs = set ys"
  shows "createTable self tablename xs useTypes before after verbose True
           = createTable self tablename ys useTypes before after verbose True
       \<and> sorted (np_sort (map fst xs))
       \<and> mset (np_sort (map fst xs)) = mset (map (\<lambda>x. rstrip_nul (fst x)) xs)
       \<and> ((\<forall>x\<in>set xs. fst x = [] \<or> last (fst x) \<noteq> CHR 0x00) \<longrightarrow>
            np_sort (map fst xs) = sort (map fst xs))
       \<and> (\<forall>out q. createTable self tablename xs True before after verbose True
                     = (out, Inr q) \<longrightarrow>
            (\<exists>cols. q = ''CREATE TABLE IF NOT EXISTS '' @ tablename @ '' (''
                          @ (if driver self = Some ''sqlite'' then []
                             else (case rowid self of Some rid \<Rightarrow> rid | None \<Rightarrow> [])
                                    @ '' SERIAL PRIMARY KEY, '')
                          @ before @ join '', '' cols @ after @ '')''
                   \<and> length cols = length xs
                   \<and> (\<forall>i<length xs. \<exists>ty.
                         cols ! i = [CHR 0x27] @ np_sort (map fst xs) ! i @ [CHR 0x27]
                                      @ '' '' @ ty)))
       \<and> (driver self = Some ''sqlite'' \<longrightarrow>
            createTable self tablename xs False before after False True
              = ([], Inr (''CREATE TABLE IF NOT EXISTS '' @ tablename @ '' ('' @ before
                            @ join '', '' (np_sort (map fst xs)) @ after @ '')'')))"
proof (intro conjI allI impI)
  note s = same_items_sorted_keys [OF assms]
  have "appendType self xs useTypes True = appendType self ys useTypes True"
    unfolding appendType_def appendType_loop_cong [OF s(2)] by (simp add: s(1))
  then show "createTable self tablename xs useTypes before after verbose True
           = createTable self tablename ys useTypes before after verbose True"
    by (simp add: createTable_def)
next
  show "sorted (np_sort (map fst xs))" by (simp add: np_sort_def)
next
  show "mset (np_sort (map fst xs)) = mset (map (\<lambda>x. rstrip_nul (fst x)) xs)"
    by (simp add: np_sort_def comp_def)
next
  assume "\<forall>x\<in>set xs. fst x = [] \<or> last (fst x) \<noteq> CHR 0x00"
  then have "map rstrip_nul (map fst xs) = map fst xs"
    by (induction xs) (auto simp: rstrip_nul_id)
  then show "np_sort (map fst xs) = sort (map fst xs)"
    by (simp only: np_sort_def)
next
  fix out q
  assume c: "createTable self tablename xs True before after verbose True = (out, Inr q)"
  from createTable_typed_text [OF c] obtain o1 cols where
    l: "appendType_loop self xs (np_sort (map fst xs)) = (o1, Inr cols)"
    and q: "q = ''CREATE TABLE IF NOT EXISTS '' @ tablename @ '' (''
               @ (if driver self = Some ''sqlite'' then []
                  else (case rowid self of Some rid \<Rightarrow> rid | None \<Rightarrow> [])
                         @ '' SERIAL PRIMARY KEY, '')
               @ before @ join '', '' cols @ after @ '')''"
    by auto
  have n: "length (np_sort (map fst xs)) = length xs" by (simp add: np_sort_def)
  from appendType_loop_columns [OF l] n
  have "length cols = length xs"
    and "\<forall>i<length xs. \<exists>ty.
           cols ! i = [CHR 0x27] @ np_sort (map fst xs) ! i @ [CHR 0x27] @ '' '' @ ty"
    by simp_all
  with q show "\<exists>cols. q = ''CREATE TABLE IF NOT EXISTS '' @ tablename @ '' (''
                          @ (if driver self = Some ''sqlite'' then []
                             else (case rowid self of Some rid \<Rightarrow> rid | None \<Rightarrow> [])
                                    @ '' SERIAL PRIMARY KEY, '')
                          @ before @ join '', '' cols @ after @ '')''
                   \<and> length cols = length xs
                   \<and> (\<forall>i<length xs. \<exists>ty.
                         cols ! i = [CHR 0x27] @ np_sort (map fst xs) ! i @ [CHR 0x27]
                                      @ '' '' @ ty)"
    by blast
next
  assume "driver self = Some ''sqlite''"
  then show "createTable self tablename xs False before after False True
              = ([], Inr (''CREATE TABLE IF NOT EXISTS '' @ tablename @ '' ('' @ before
                            @ join '', '' (np_sort (map fst xs)) @ after @ '')''))"
    by (simp add: createTable_def appendType_def getattr_def Let_def)
qed

theorem createTable_sorted_deterministic_witness:
  "distinct (map fst [(''b'', PyInt 1), (''a'', PyStr ''x'')])
   \<and> distinct (map fst [(''a'', PyStr ''x''), (''b'', PyInt 1)])
   \<and> set [(''b'', PyInt 1), (''a'', PyStr ''x'')] = set [(''a'', PyStr ''x''), (''b'', PyInt 1)]
   \<and> createTable example_sqlite ''t'' [(''b'', PyInt 1), (''a'', PyStr ''x'')]
         True [] [] False True
       = ([], Inr ''CREATE TABLE IF NOT EXISTS t ('a' TEXT, 'b' INTEGER)'')
   \<and> createTable example_sqlite ''t'' [(''a'', PyStr ''x''), (''b'', PyInt 1)]
         True [] [] False True
       = ([], Inr ''CREATE TABLE IF NOT EXISTS t ('a' TEXT, 'b' INTEGER)'')
   \<and> np_sort (map fst [(''b'', PyInt 1), (''a'', PyStr ''x'')]) = [''a'', ''b'']"
proof -
  have d1: "distinct (map fst [(''b'', PyInt 1), (''a'', PyStr ''x'')])"
    and d2: "distinct (map fst [(''a'', PyStr ''x''), (''b'', PyInt 1)])"
    by simp_all
  have se: "set [(''b'', PyInt 1), (''a'', PyStr ''x'')]
              = set [(''a'', PyStr ''x''), (''b'', PyInt 1)]"
    by auto
  have e: "createTable example_sqlite ''t'' [(''b'', PyInt 1), (''a'', PyStr ''x'')]
             True [] [] False True
           = createTable example_sqlite ''t'' [(''a'', PyStr ''x''), (''b'', PyInt 1)]
             True [] [] False True"
    by (rule createTable_sorted_deterministic [OF d1 d2 se, THEN conjunct1])
  have k0: "np_sort [''b'', ''a''] = [''a'', ''b'']"
    by (simp add: np_sort_def rstrip_nul_def)
  then have k: "np_sort (map fst [(''b'', PyInt 1), (''a'', PyStr ''x'')]) = [''a'', ''b'']"
    by simp
  have r: "createTable example_sqlite ''t'' [(''b'', PyInt 1), (''a'', PyStr ''x'')]
             True [] [] False True
           = ([], Inr ''CREATE TABLE IF NOT EXISTS t ('a' TEXT, 'b' INTEGER)'')"
    by (simp add: createTable_def appendType_def getattr_def k0
        detectType.simps format_valtype_def)
  from e r have r2: "createTable example_sqlite ''t'' [(''a'', PyStr ''x''), (''b'', PyInt 1)]
             True [] [] False True
           = ([], Inr ''CREATE TABLE IF NOT EXISTS t ('a' TEXT, 'b' INTEGER)'')"
    by (rule trans [OF sym])
  show ?thesis
    by (rule conjI [OF d1 conjI [OF d2 conjI [OF se conjI [OF r conjI [OF r2 k]]]]])
qed


section \<open>Properties of the array byte format\<close>

lemma strip_prefix_append: "strip_prefix p (p @ r) = Some r"
  by (simp add: strip_prefix_def)

lemma parse_bool_text: "parse_bool (bool_text b @ r) = Some (b, r)"
  by (simp add: parse_bool_def bool_text_def strip_prefix_def)

lemma str_nat_nonempty: "str_nat n \<noteq> []"
  by (subst str_nat.simps) simp

lemma str_nat_hd_digit: "\<exists>d ds. str_nat n = d # ds \<and> is_digit d"
  using str_nat_nonempty [of n] str_nat_digits [of n] by (cases "str_nat n") auto

lemma takeWhile_str_nat:
  "\<not> is_digit c \<Longrightarrow> takeWhile is_digit (str_nat n @ c # r) = str_nat n"
  using str_nat_digits [of n] by (simp add: takeWhile_append2)

lemma dropWhile_str_nat:
  "\<not> is_digit c \<Longrightarrow> dropWhile is_digit (str_nat n @ c # r) = c # r"
  using str_nat_digits [of n] by (simp add: dropWhile_append2)

lemma not_digit_punct [simp]: "\<not> is_digit CHR '',''" "\<not> is_digit CHR '')''"
  by (simp_all add: is_digit_def)

lemma parse_items_last:
  "parse_items False (str_nat n @ CHR '')'' # rest) = Some ([n], rest)"
  by (subst parse_items.simps)
     (simp add: takeWhile_str_nat dropWhile_str_nat str_nat_nonempty parse_str_nat)

lemma parse_items_single:
  "parse_items True (str_nat n @ CHR '','' # CHR '')'' # rest) = Some ([n], rest)"
  by (subst parse_items.simps)
     (simp add: takeWhile_str_nat dropWhile_str_nat str_nat_nonempty parse_str_nat)

lemma parse_items_more:
  "parse_items first (str_nat n @ CHR '','' # CHR '' '' # s)
     = map_option (\<lambda>(ns, rest). (n # ns, rest)) (parse_items False s)"
  by (subst parse_items.simps)
     (simp add: takeWhile_str_nat dropWhile_str_nat str_nat_nonempty parse_str_nat)

lemma parse_items_text:
  "parse_items False (items_text n ms @ rest) = Some (n # ms, rest)"
  by (induction ms arbitrary: n) (simp_all add: parse_items_last parse_items_more)

lemma parse_shape_text: "parse_shape (shape_text ns @ rest) = Some (ns, rest)"
proof (cases ns rule: shape_text.cases)
  case 1
  then show ?thesis by (simp add: parse_shape_def strip_prefix_def)
next
  case (2 n)
  obtain d ds where "str_nat n = d # ds" "is_digit d"
    using str_nat_hd_digit by blast
  then have "strip_prefix ''()'' (''('' @ str_nat n @ '',)'' @ rest) = None"
    by (auto simp: strip_prefix_def)
  with 2 show ?thesis
    using parse_items_single [of n rest] by (simp add: parse_shape_def strip_prefix_def)
next
  case (3 n m ms)
  obtain d ds where "str_nat n = d # ds" "is_digit d"
    using str_nat_hd_digit by blast
  then have "strip_prefix ''()'' (''('' @ str_nat n @ '', '' @ items_text m ms @ rest) = None"
    by (auto simp: strip_prefix_def)
  with 3 show ?thesis
    using parse_items_more [of True n "items_text m ms @ rest"] parse_items_text [of m ms rest]
    by (simp add: parse_shape_def strip_prefix_def)
qed

lemma dropWhile_padding:
  "dropWhile (\<lambda>c. c = CHR '' '') (replicate k CHR '' '' @ [CHR 0x0A]) = [CHR 0x0A]"
  by (induction k) simp_all

lemma key_order_quote: "key_order = CHR 0x27 # tl key_order"
  by (simp add: key_order_def)

lemma parse_header_layout:
  assumes "CHR 0x27 \<notin> set d"
  shows "parse_header (key_descr @ d @ key_order @ bool_text fo @ key_shape
           @ shape_text ns @ dict_close @ replicate k CHR '' '' @ [CHR 0x0A])
         = Some (d, fo, ns)"
proof -
  let ?r2 = "bool_text fo @ key_shape @ shape_text ns @ dict_close
               @ replicate k CHR '' '' @ [CHR 0x0A]"
  have q: "d @ key_order @ ?r2 = d @ CHR 0x27 # (tl key_order @ ?r2)"
    by (subst key_order_quote) simp
  have t: "takeWhile (\<lambda>c. c \<noteq> CHR 0x27) (d @ key_order @ ?r2) = d"
    unfolding q using assms by (auto simp: takeWhile_tail)
  have "dropWhile (\<lambda>c. c \<noteq> CHR 0x27) (d @ key_order @ ?r2)
          = CHR 0x27 # (tl key_order @ ?r2)"
    unfolding q using assms by (auto simp: dropWhile_append3)
  also have "\<dots> = key_order @ ?r2" by (subst (2) key_order_quote) simp
  finally have dr: "dropWhile (\<lambda>c. c \<noteq> CHR 0x27) (d @ key_order @ ?r2) = key_order @ ?r2" .
  show ?thesis
    by (simp add: parse_header_def strip_prefix_append Let_def t dr parse_bool_text
        parse_shape_text dropWhile_padding)
qed

lemma parse_header_text:
  "CHR 0x27 \<notin> set (descr a) \<Longrightarrow>
   parse_header (header_text a) = Some (descr a, fortran_order a, shape a)"
  using parse_header_layout [of "descr a" "fortran_order a" "shape a"]
  by (simp add: header_text_def dict_text_def Let_def)


lemma length_str_nat: "0 < k \<Longrightarrow> n < 10 ^ k \<Longrightarrow> length (str_nat n) \<le> k"
proof (induction n arbitrary: k rule: str_nat.induct)
  case (1 n)
  show ?case
  proof (cases "n < 10")
    case True
    with 1(2) show ?thesis by (subst str_nat.simps) simp
  next
    case False
    with 1(2,3) have k: "1 < k" by (cases k; cases "k - 1") auto
    then obtain j where j: "k = Suc j" "0 < j" by (cases k) auto
    with 1(3) have "n div 10 < 10 ^ j"
      by (simp add: less_mult_imp_div_less mult.commute)
    with 1(1) [OF False j(2)] have "length (str_nat (n div 10)) \<le> j" by simp
    with False j show ?thesis by (subst str_nat.simps) simp
  qed
qed

lemma length_str_nat_63: "n < 2 ^ 63 \<Longrightarrow> length (str_nat n) \<le> 19"
  by (rule length_str_nat) simp_all

lemma length_items_text:
  "n < 2 ^ 63 \<Longrightarrow> list_all (\<lambda>n. n < 2 ^ 63) ms \<Longrightarrow>
   length (items_text n ms) \<le> 21 * Suc (length ms)"
proof (induction ms arbitrary: n)
  case Nil
  then show ?case using length_str_nat_63 [of n] by simp
next
  case (Cons m ms)
  then have "length (items_text m ms) \<le> 21 * Suc (length ms)" by simp
  with Cons.prems show ?case using length_str_nat_63 [of n] by simp
qed

lemma length_shape_text:
  "list_all (\<lambda>n. n < 2 ^ 63) ns \<Longrightarrow> length (shape_text ns) \<le> 2 + 21 * length ns"
proof (cases ns rule: shape_text.cases)
  case 1
  then show ?thesis by simp
next
  case (2 n)
  assume "list_all (\<lambda>n. n < 2 ^ 63) ns"
  with 2 show ?thesis using length_str_nat_63 [of n] by simp
next
  case (3 n m ms)
  assume "list_all (\<lambda>n. n < 2 ^ 63) ns"
  with 3 show ?thesis using length_items_text [of n "m # ms"] by simp
qed

lemma itemsize_descr:
  "itemsize d = Some sz \<Longrightarrow> length d \<le> 4 \<and> CHR 0x27 \<notin> set d"
  by (auto simp: itemsize_def dtype_table_def split: if_splits)

lemma length_header_text:
  assumes "length (descr a) \<le> 4" "length (shape a) \<le> 32"
    "list_all (\<lambda>n. n < 2 ^ 63) (shape a)"
  shows "length (header_text a) < 65536"
proof -
  have "length (shape_text (shape a)) \<le> 2 + 21 * 32"
    using length_shape_text [OF assms(3)] assms(2) by simp
  then have "length (dict_text a) \<le> 728"
    using assms(1)
    by (simp add: dict_text_def key_descr_def key_order_def key_shape_def dict_close_def
        bool_text_def)
  then show ?thesis
    by (simp add: header_text_def Let_def)
qed

lemma drop_prefix10:
  "drop (10 + n) (c0 # c1 # c2 # c3 # c4 # c5 # c6 # c7 # c8 # c9 # xs) = drop n xs"
  by (simp add: eval_nat_numeral)

lemma np_load_layout:
  assumes "length h < 65536"
  shows "np_load (magic @ version @ le16 (length h) @ h @ body)
     = (case parse_header h of
          None \<Rightarrow> Inl FormatError
        | Some (d, fo, ns) \<Rightarrow>
            (case itemsize d of
               None \<Rightarrow> Inl (UnsupportedDtypeError d)
             | Some sz \<Rightarrow>
                 if length body < sz * prod_list ns then Inl FormatError
                 else Inr \<lparr> descr = d, fortran_order = fo, shape = ns,
                            data = take (sz * prod_list ns) body \<rparr>))"
proof -
  have l: "length h mod 256 + 256 * (length h div 256 mod 256) = length h"
    using assms by simp
  show ?thesis
    using assms
    by (simp add: np_load_def magic_def version_def le16_def Let_def l drop_prefix10
        split: option.splits prod.splits)
qed

lemma np_load_np_save:
  assumes "supported a"
  shows "np_load (np_save a) = Inr a"
proof -
  from assms obtain sz where sz: "itemsize (descr a) = Some sz"
    and n: "length (shape a) \<le> 32" and b: "list_all (\<lambda>n. n < 2 ^ 63) (shape a)"
    and l: "length (data a) = sz * prod_list (shape a)"
    by (auto simp: supported_def split: option.splits)
  note d = itemsize_descr [OF sz]
  have h: "length (header_text a) < 65536"
    using d n b by (simp add: length_header_text)
  have p: "parse_header (header_text a) = Some (descr a, fortran_order a, shape a)"
    using d by (simp add: parse_header_text)
  show ?thesis
    unfolding np_save_def Let_def np_load_layout [OF h] p
    by (simp add: sz l)
qed


section \<open>Properties of the converters\<close>

lemma bio_round:
  "fst (bio_read (bio_seek (bio_write (BytesIO []) b) 0)) = b"
  by (simp add: bio_read_def bio_seek_def bio_write_def BytesIO_def)

lemma bio_initial:
  "fst (bio_read (bio_seek (BytesIO b) 0)) = b"
  by (simp add: bio_read_def bio_seek_def BytesIO_def)

lemma adapt_array_bytes:
  "driver self \<noteq> None \<Longrightarrow> adapt_array self arr = Inr (np_save arr)"
  by (auto simp: adapt_array_def Let_def getattr_def bio_round)

lemma typecast_array_no_cursor:
  "typecast_array lib self (Some b) None = map_sum id Some (np_load b)"
  by (simp add: typecast_array_def Let_def bio_initial)

lemma typecast_array_postgres:
  "driver self = Some ''postgre'' \<Longrightarrow>
   typecast_array lib self (Some w) (Some c) = map_sum id Some (np_load (pg_BINARY lib w))"
  by (simp add: typecast_array_def Let_def bio_initial getattr_def)

lemma typecast_array_sqlite_cursor:
  "driver self = Some ''sqlite'' \<Longrightarrow>
   typecast_array lib self (Some w) (Some c) = Inl (AttributeError ''BINARY'')"
  by (simp add: typecast_array_def getattr_def)

lemma np_save_example:
  "np_save example_scalar
   = [CHR 0x93] @ ''NUMPY'' @ [CHR 0x01, CHR 0x00, CHR ''v'', CHR 0x00]
       @ ''{'descr': '<i8', 'fortran_order': False, 'shape': (), }'' @ replicate 62 CHR '' ''
       @ [CHR 0x0A]
       @ [CHR 0x03, CHR 0x00, CHR 0x00, CHR 0x00, CHR 0x00, CHR 0x00, CHR 0x00, CHR 0x00]"
proof -
  have c: "char_of (118::nat) = CHR ''v''" "char_of (0::nat) = CHR 0x00"
    by code_simp+
  show ?thesis
    by (simp add: np_save_def header_text_def dict_text_def key_descr_def key_order_def
        key_shape_def dict_close_def bool_text_def magic_def version_def le16_def Let_def c)
qed

text \<open>
  Claim C1. For every supported array, also one of shape \<open>()\<close> or of length zero,
  and every session with a driver, the embedded-array encoder returns bytes from which
  the embedded-array decoder returns the same array: same dtype, same order flag, same
  shape, same element bytes. This holds on the path the sqlite driver takes (the
  converter is called with the bytes and no cursor) and on the path the postgres
  driver takes (a postgres session, a cursor, and a typecaster that hands back the
  stored bytes).
\<close>

theorem array_round_trip:
  assumes "supported x" and "driver self \<noteq> None"
  shows "\<exists>b. adapt_array self x = Inr b
           \<and> typecast_array lib self (Some b) None = Inr (Some x)
           \<and> (driver self = Some ''postgre'' \<longrightarrow>
                (\<forall>w c. pg_BINARY lib w = b \<longrightarrow>
                   typecast_array lib self (Some w) (Some c) = Inr (Some x)))"
proof (intro exI conjI allI impI)
  show "adapt_array self x = Inr (np_save x)"
    using assms(2) by (rule adapt_array_bytes)
  show "typecast_array lib self (Some (np_save x)) None = Inr (Some x)"
    by (simp add: typecast_array_no_cursor np_load_np_save [OF assms(1)])
next
  fix w c assume "driver self = Some ''postgre''" and "pg_BINARY lib w = np_save x"
  then show "typecast_array lib self (Some w) (Some c) = Inr (Some x)"
    by (simp add: typecast_array_postgres np_load_np_save [OF assms(1)])
qed

theorem array_round_trip_witness:
  "supported example_scalar \<and> supported example_empty
   \<and> driver example_sqlite \<noteq> None \<and> driver example_postgres = Some ''postgre''
   \<and> adapt_array example_sqlite example_scalar = Inr (np_save example_scalar)
   \<and> typecast_array example_library example_sqlite (Some (np_save example_scalar)) None
       = Inr (Some example_scalar)
   \<and> typecast_array example_library example_sqlite (Some (np_save example_empty)) None
       = Inr (Some example_empty)
   \<and> typecast_array example_library example_postgres (Some (np_save example_scalar))
         (Some Cursor)
       = Inr (Some example_scalar)"
proof -
  have s: "supported example_scalar" and e: "supported example_empty"
    by (simp_all add: supported_def itemsize_def dtype_table_def)
  have d: "driver example_sqlite \<noteq> None" and p: "driver example_postgres = Some ''postgre''"
    and p': "driver example_postgres \<noteq> None"
    by simp_all
  have a: "adapt_array example_sqlite y = Inr (np_save y)" for y
    using d by (rule adapt_array_bytes)
  have a': "adapt_array example_postgres y = Inr (np_save y)" for y
    using p' by (rule adapt_array_bytes)
  from array_round_trip [OF s d, of example_library]
  have r1: "typecast_array example_library example_sqlite (Some (np_save example_scalar)) None
              = Inr (Some example_scalar)"
    unfolding a by blast
  from array_round_trip [OF e d, of example_library]
  have r2: "typecast_array example_library example_sqlite (Some (np_save example_empty)) None
              = Inr (Some example_empty)"
    unfolding a by blast
  have i: "pg_BINARY example_library (np_save example_scalar) = np_save example_scalar"
    by simp
  from array_round_trip [OF s p', of example_library]
  have "\<forall>w c. pg_BINARY example_library w = np_save example_scalar \<longrightarrow>
          typecast_array example_library example_postgres (Some w) (Some c)
            = Inr (Some example_scalar)"
    unfolding a' using p by blast
  with i have r3: "typecast_array example_library example_postgres
                     (Some (np_save example_scalar)) (Some Cursor)
                   = Inr (Some example_scalar)"
    by blast
  show ?thesis
    by (rule conjI [OF s conjI [OF e conjI [OF d conjI [OF p conjI [OF a
          conjI [OF r1 conjI [OF r2 r3]]]]]]])
qed

text \<open>
  Claim C6 says that the external read tries the compressed sibling first, falls back
  to the uncompressed file and raises \<open>FileNotFoundError\<close> when neither exists. In the
  code both file tests are \<open>os.path.isfile\<close> with \<open>os\<close> unbound. Reading a reference
  (a value that is not NULL, on the sqlite path or on the postgres path) raises
  \<open>NameError\<close>, at line 305 when the session is configured for compressed reads and at
  line 308 otherwise, whatever files the filesystem holds: no file is tested or read,
  and \<open>FileNotFoundError\<close> is never raised.
\<close>

theorem typecast_array_ext_raises_NameError:
  assumes "cur = None \<and> utf8_decode lib v = Inr ref
           \<or> cur \<noteq> None \<and> driver self = Some ''postgre''"
  shows "typecast_array_ext lib self (Some v) cur fs = ([], Inl (NameError ''os''))"
  using assms
  by (auto simp: typecast_array_ext_def getattr_def os_path_isfile_def Let_def)

theorem typecast_array_ext_raises_NameError_witness:
  "typecast_array_ext example_library example_zipped (Some ''2024-01-01/x'') None Map.empty
     = ([], Inl (NameError ''os''))
   \<and> typecast_array_ext example_library example_sqlite (Some ''2024-01-01/x'') None
       Map.empty
     = ([], Inl (NameError ''os''))
   \<and> typecast_array_ext example_library example_zipped (Some ''2024-01-01/x'') None
       [''./2024-01-01/x.npy'' \<mapsto> File (np_save example_scalar)]
     = ([], Inl (NameError ''os''))
   \<and> typecast_array_ext example_library example_postgres (Some ''2024-01-01/x'')
       (Some Cursor) Map.empty
     = ([], Inl (NameError ''os''))"
proof -
  have h: "(None :: cursor option) = None
           \<and> utf8_decode example_library ''2024-01-01/x'' = Inr ''2024-01-01/x''
           \<or> (None :: cursor option) \<noteq> None \<and> driver s = Some ''postgre''" for s
    by simp
  have g: "Some Cursor = None
           \<and> utf8_decode example_library ''2024-01-01/x'' = Inr ''2024-01-01/x''
           \<or> Some Cursor \<noteq> None \<and> driver example_postgres = Some ''postgre''"
    by simp
  show ?thesis
    by (rule conjI [OF typecast_array_ext_raises_NameError [OF h]
          conjI [OF typecast_array_ext_raises_NameError [OF h]
            conjI [OF typecast_array_ext_raises_NameError [OF h]
              typecast_array_ext_raises_NameError [OF g]]]])
qed

text \<open>
  Claim C10. With a cursor (the postgres read path), both converters map a NULL value
  to \<open>None\<close>: for every session, library and filesystem the result is \<open>None\<close>, no
  error is raised, and the external converter makes no filesystem call.
\<close>

theorem typecast_null:
  "typecast_array lib self None (Some c) = Inr None
   \<and> typecast_array_ext lib self None (Some c) fs = ([], Inr None)"
  by (simp add: typecast_array_def typecast_array_ext_def)

theorem typecast_null_witness:
  "typecast_array example_library example_sqlite None (Some Cursor) = Inr None
   \<and> typecast_array_ext example_library example_sqlite None (Some Cursor) Map.empty
       = ([], Inr None)"
  by (rule typecast_null)


end
